theory Spec2Isabelle
  imports Main "HOL-Library.Sublist"
begin

section \<open>The node splitter of xml_splitter_app_codellama_chroma.py\<close>

text \<open>
  The program has one core function, \<^verbatim>\<open>split_xml_node(xml_content, node_path)\<close>, and the
  gateway \<^verbatim>\<open>ask_codellama(prompt)\<close>. Both lean on libraries that are not part of the
  repository: \<^verbatim>\<open>re\<close>, \<^verbatim>\<open>lxml.etree\<close> and \<^verbatim>\<open>requests\<close>. What the program itself
  computes (the pattern of line 16, the prompt, the order of the checks, the splice loop)
  is modelled here; the parsers, the XPath engine, the serializer and the HTTP transport
  are fields of an environment record, so every theorem holds for whatever these
  libraries compute.

  Text is a \<^typ>\<open>string\<close>; a \<^typ>\<open>char\<close> stands for a code point below 256.
\<close>

subsection \<open>Elements\<close>

text \<open>
  An lxml element: tag, attributes, direct text (\<^verbatim>\<open>None\<close> when absent), children in
  order, and the tail text that follows its end tag. lxml keeps the tail with the
  element when the element is removed or moved, so it is a field of the element.
  lxml lists comments and processing instructions among the children as well, with
  their content as \<^verbatim>\<open>.text\<close>; they are elements here too.
  A node of a tree is named by the child indices that lead to it from the root; the
  root is \<open>[]\<close>.
\<close>

datatype element =
  Element (tag: string) (attrib: "(string \<times> string) list") (text_of: "string option")
          (children: "element list") (tail: "string option")

type_synonym node = "nat list"

fun node_at :: "element \<Rightarrow> node \<Rightarrow> element option" where
  "node_at e [] = Some e"
| "node_at e (i # p) =
     (if i < length (children e) then node_at (children e ! i) p else None)"

text \<open>
  All nodes of a tree in document order (a node before its children, children left to
  right), each with the element found there.
\<close>

fun nodes :: "element \<Rightarrow> (node \<times> element) list"
  and nodes_from :: "nat \<Rightarrow> element list \<Rightarrow> (node \<times> element) list" where
  "nodes (Element t a x cs ta) = ([], Element t a x cs ta) # nodes_from 0 cs"
| "nodes_from i [] = []"
| "nodes_from i (c # cs) = map (\<lambda>(p, e). (i # p, e)) (nodes c) @ nodes_from (Suc i) cs"

text \<open>
  Document order on node names: a node comes before the nodes below it, and before every
  node reached through a later child of one of its ancestors.
\<close>

definition before_in_document :: "node \<Rightarrow> node \<Rightarrow> bool" where
  "before_in_document p q = ((p, q) \<in> lexord {(i, j). i < j})"

text \<open>\<^verbatim>\<open>node.getparent()\<close> is \<^verbatim>\<open>None\<close> for the root; \<^verbatim>\<open>parent.index(node)\<close> is the last index.\<close>

definition getparent :: "node \<Rightarrow> node option" where
  "getparent p = (if p = [] then None else Some (butlast p))"

text \<open>In-place change of the child list of the node at a path.\<close>

fun modify_children :: "node \<Rightarrow> (element list \<Rightarrow> element list) \<Rightarrow> element \<Rightarrow> element" where
  "modify_children [] f (Element t a x cs ta) = Element t a x (f cs) ta"
| "modify_children (i # p) f (Element t a x cs ta) =
     Element t a x (if i < length cs then cs[i := modify_children p f (cs ! i)] else cs) ta"

subsection \<open>Errors and the environment\<close>

text \<open>
  The exceptions that leave \<^verbatim>\<open>split_xml_node\<close>: lxml's \<^verbatim>\<open>XMLSyntaxError\<close> and
  \<^verbatim>\<open>XPathEvalError\<close>, Python's \<^verbatim>\<open>IndexError\<close> (line 22, \<^verbatim>\<open>[0]\<close> of an empty list) and
  \<^verbatim>\<open>AttributeError\<close> (a method call on \<^verbatim>\<open>None\<close>), and the two \<^verbatim>\<open>Exception(msg)\<close>
  raised at lines 52 and 58.
\<close>

datatype error = XMLSyntaxError | XPathEvalError | IndexError | AttributeError | Exception string

datatype json = JString string | JBool bool

datatype http_reply = RequestException | Reply "string \<rightharpoonup> string"

text \<open>
  \<^item> \<open>fromstring_recover\<close>: \<^verbatim>\<open>etree.fromstring(bytes, parser=XMLParser(recover=True))\<close>; it
    raises, returns \<^verbatim>\<open>None\<close>, or returns the root.
  \<^item> \<open>xpath_compile\<close>: the XPath engine on an expression that selects elements: \<open>None\<close>
    when lxml raises \<^verbatim>\<open>XPathEvalError\<close>, otherwise which nodes of the tree the
    expression selects. lxml returns the selected nodes in document order. Expressions
    whose value is not a list of elements of the tree (a number, a string, attribute
    values, a comment beside the root) are not covered.
  \<^item> \<open>post\<close>: \<^verbatim>\<open>requests.post(url, json=data)\<close> with \<^verbatim>\<open>raise_for_status()\<close> and
    \<^verbatim>\<open>.json()\<close>: a \<^verbatim>\<open>RequestException\<close>, or the reply object, a dict
    (its members are taken to be strings).
  \<^item> \<open>fromstring\<close>: \<^verbatim>\<open>etree.fromstring(str)\<close> with the default (strict) parser; \<open>None\<close>
    when it raises \<^verbatim>\<open>XMLSyntaxError\<close>.
  \<^item> \<open>tostring\<close>: \<^verbatim>\<open>etree.tostring(root, pretty_print=True, encoding='unicode')\<close>.
\<close>

record env =
  fromstring_recover :: "string \<Rightarrow> error + element option"
  xpath_compile :: "string \<Rightarrow> (element \<Rightarrow> node \<Rightarrow> bool) option"
  post :: "string \<Rightarrow> (string \<times> json) list \<Rightarrow> http_reply"
  fromstring :: "string \<Rightarrow> element option"
  tostring :: "element \<Rightarrow> string"

subsection \<open>Line 16: the declaration pattern and \<^verbatim>\<open>str.strip\<close>\<close>

text \<open>
  \<^verbatim>\<open>[^>]+\?>\<close> after the literal \<^verbatim>\<open><?xml\<close>: the engine takes the longest run of characters
  other than \<^verbatim>\<open>>\<close> first and gives characters back one at a time, down to one, until
  \<^verbatim>\<open>?>\<close> follows. \<open>decl_end n s\<close> tries the run lengths \<open>n, n - 1, ..., 1\<close> and returns the
  text after the match.
\<close>

fun decl_end :: "nat \<Rightarrow> string \<Rightarrow> string option" where
  "decl_end 0 s = None"
| "decl_end (Suc n) s =
     (if prefix ''?>'' (drop (Suc n) s) then Some (drop (Suc n + 2) s) else decl_end n s)"

definition match_decl :: "string \<Rightarrow> string option" where
  "match_decl s =
     (if prefix ''<?xml'' s
      then decl_end (length (takeWhile (\<lambda>c. c \<noteq> CHR ''>'') (drop 5 s))) (drop 5 s)
      else None)"

text \<open>
  \<^verbatim>\<open>re.sub(r'<\?xml[^>]+\?>', '', xml_content)\<close>: scanning from the left, every match is
  replaced by the empty string and the scan goes on after it; a character at which the
  pattern does not match is copied.
\<close>

function re_sub_decl :: "string \<Rightarrow> string" where
  "re_sub_decl [] = []"
| "re_sub_decl (c # cs) =
     (case match_decl (c # cs) of
        Some r \<Rightarrow> re_sub_decl r
      | None \<Rightarrow> c # re_sub_decl cs)"
  by pat_completeness auto
termination
proof (relation "measure length")
  show "wf (measure length)" by simp
next
  fix c :: char and cs r :: string
  assume m: "match_decl (c # cs) = Some r"
  then have p: "prefix ''<?xml'' (c # cs)"
    by (simp add: match_decl_def split: if_splits)
  then obtain t where s: "c # cs = ''<?xml'' @ t"
    by (auto simp: prefix_def)
  from m p obtain n where "decl_end n (drop 5 (c # cs)) = Some r"
    by (simp add: match_decl_def)
  with s have "decl_end n t = Some r" by simp
  then have "length r \<le> length t"
    by (induction n) (auto split: if_splits)
  with s have "length r < length (c # cs)" by simp
  then show "(r, c # cs) \<in> measure length" by simp
next
  fix c :: char and cs :: string
  show "(cs, c # cs) \<in> measure length" by simp
qed

text \<open>The code points below 256 that \<^verbatim>\<open>str.strip()\<close> removes.\<close>

definition is_space :: "char \<Rightarrow> bool" where
  "is_space c = ((of_char c :: nat) \<in> {9, 10, 11, 12, 13, 28, 29, 30, 31, 32, 133, 160})"

definition strip :: "string \<Rightarrow> string" where
  "strip s = rev (dropWhile is_space (rev (dropWhile is_space s)))"

definition strip_declaration :: "string \<Rightarrow> string" where
  "strip_declaration xml_content = strip (re_sub_decl xml_content)"

text \<open>\<^verbatim>\<open>sub in s\<close> for strings.\<close>

fun contains :: "string \<Rightarrow> string \<Rightarrow> bool" where
  "contains sub [] = (sub = [])"
| "contains sub (c # cs) = (prefix sub (c # cs) \<or> contains sub cs)"

subsection \<open>Line 22: the target node\<close>

text \<open>
  \<^verbatim>\<open>root.xpath(node_path)[0]\<close>: the engine's error goes through, \<^verbatim>\<open>[0]\<close> of an empty
  result raises \<^verbatim>\<open>IndexError\<close>, otherwise the first selected node in document order.
\<close>

definition xpath :: "env \<Rightarrow> element \<Rightarrow> string \<Rightarrow> error + (node \<times> element) list" where
  "xpath env root node_path =
     (case xpath_compile env node_path of
        None \<Rightarrow> Inl XPathEvalError
      | Some selects \<Rightarrow> Inr (filter (\<lambda>(p, e). selects root p) (nodes root)))"

definition locate_node :: "env \<Rightarrow> element \<Rightarrow> string \<Rightarrow> error + (node \<times> element)" where
  "locate_node env root node_path =
     (case xpath env root node_path of
        Inl e \<Rightarrow> Inl e
      | Inr [] \<Rightarrow> Inl IndexError
      | Inr (node # _) \<Rightarrow> Inr node)"

subsection \<open>Lines 26 to 47: the prompt\<close>

fun join_lines :: "string list \<Rightarrow> string" where
  "join_lines [] = []"
| "join_lines [l] = l"
| "join_lines (l # ls) = l @ CHR 0x0A # join_lines ls"

definition prompt :: "string \<Rightarrow> string \<Rightarrow> string" where
  "prompt node_tag original_content = join_lines
     [ [],
       ''    Task: Split the following XML content into four categories: task, profile, offer, and contact.'',
       ''    Rules:'',
       ''    1. Maintain the original wording.'',
       ''    2. Do not add any new information.'',
       ''    3. If a category is not applicable, omit that tag entirely.'',
       ''    4. Use proper XML syntax.'',
       [],
       ''    Input XML:'',
       ''    <'' @ node_tag @ ''>'',
       ''    '' @ original_content,
       ''    </'' @ node_tag @ ''>'',
       [],
       ''    Output format:'',
       ''    <introduction>Introduction content here</introduction>'',
       ''    <task>Task content here</task>'',
       ''    <profile>Profile content here</profile>'',
       ''    <offer>Offer content here</offer>'',
       ''    <contact>Contact content here</contact>'',
       [],
       ''    Split the content:'',
       ''    '' ]"

subsection \<open>Lines 72 to 90: the gateway\<close>

definition ask_codellama :: "env \<Rightarrow> string \<Rightarrow> string option" where
  "ask_codellama env prompt_text =
     (case post env ''http://localhost:11434/api/generate''
             [(''model'', JString ''codellama''), (''prompt'', JString prompt_text),
              (''stream'', JBool False)] of
        RequestException \<Rightarrow> None
      | Reply result \<Rightarrow> result ''response'')"

subsection \<open>Lines 61 to 67: replacing the node\<close>

text \<open>\<^verbatim>\<open>element.text and element.text.strip()\<close>, as a truth value.\<close>

definition has_text :: "element \<Rightarrow> bool" where
  "has_text element =
     (case text_of element of None \<Rightarrow> False | Some t \<Rightarrow> t \<noteq> [] \<and> strip t \<noteq> [])"

text \<open>
  \<^verbatim>\<open>parent.remove(node)\<close> with the node at \<open>index\<close>, and \<^verbatim>\<open>parent.insert(index, element)\<close>,
  which appends when \<open>index\<close> is past the end.
\<close>

definition list_remove :: "nat \<Rightarrow> 'a list \<Rightarrow> 'a list" where
  "list_remove index xs = take index xs @ drop (Suc index) xs"

definition list_insert :: "nat \<Rightarrow> 'a \<Rightarrow> 'a list \<Rightarrow> 'a list" where
  "list_insert index x xs = take index xs @ x # drop index xs"

text \<open>
  The loop of lines 64 to 67 over the children of \<^verbatim>\<open>split_root\<close>, on the child list of
  the parent. lxml's child iterator fetches the next sibling before it hands out the
  current element, so moving the element to the other tree does not disturb the
  iteration.
\<close>

fun insert_loop :: "element list \<Rightarrow> nat \<Rightarrow> element list \<Rightarrow> element list" where
  "insert_loop [] index cs = cs"
| "insert_loop (element # rest) index cs =
     (if has_text element
      then insert_loop rest (index + 1) (list_insert index element cs)
      else insert_loop rest index cs)"

text \<open>
  Lines 61 to 67 for the located node and the elements of \<^verbatim>\<open>split_root\<close>: the outcome
  and the tree afterwards. \<^verbatim>\<open>parent.index\<close> on the \<^verbatim>\<open>None\<close> that \<^verbatim>\<open>getparent()\<close> gives
  for the root raises \<^verbatim>\<open>AttributeError\<close>.
\<close>

definition replace_node :: "node \<Rightarrow> element list \<Rightarrow> element \<Rightarrow> (error + unit) \<times> element" where
  "replace_node node elements root =
     (case getparent node of
        None \<Rightarrow> (Inl AttributeError, root)
      | Some parent \<Rightarrow>
          (let index = last node
           in (Inr (),
               modify_children parent
                 (\<lambda>cs. insert_loop elements index (list_remove index cs)) root)))"

subsection \<open>Lines 54 to 58: the reply as elements\<close>

definition parse_split_content :: "env \<Rightarrow> string \<Rightarrow> error + element" where
  "parse_split_content env split_content =
     (case fromstring env (''<root>'' @ split_content @ ''</root>'') of
        None \<Rightarrow> Inl (Exception ''CodeLlama returned invalid XML'')
      | Some split_root \<Rightarrow> Inr split_root)"

subsection \<open>\<^verbatim>\<open>split_xml_node\<close>\<close>

text \<open>
  Lines 22 to 67 on the parsed tree: the outcome, and the tree as it is when the
  function is left. \<^verbatim>\<open>original_content\<close> is \<^verbatim>\<open>node.text if node.text else ""\<close>.
\<close>

definition original_content :: "element \<Rightarrow> string" where
  "original_content node_element = (case text_of node_element of None \<Rightarrow> [] | Some t \<Rightarrow> t)"

definition split_node :: "env \<Rightarrow> string \<Rightarrow> element \<Rightarrow> (error + unit) \<times> element" where
  "split_node env node_path root =
     (case locate_node env root node_path of
        Inl e \<Rightarrow> (Inl e, root)
      | Inr (node, node_element) \<Rightarrow>
          (case ask_codellama env (prompt (tag node_element) (original_content node_element)) of
             None \<Rightarrow> (Inl (Exception ''Failed to get a response from CodeLlama''), root)
           | Some split_content \<Rightarrow>
               (case parse_split_content env split_content of
                  Inl e \<Rightarrow> (Inl e, root)
                | Inr split_root \<Rightarrow> replace_node node (children split_root) root)))"

text \<open>
  The whole function: line 16, the lenient parse of line 20 (\<^verbatim>\<open>root.xpath\<close> on a \<^verbatim>\<open>None\<close>
  root raises \<^verbatim>\<open>AttributeError\<close>), lines 22 to 67, and the serialization of line 69.
\<close>

definition split_xml_node :: "env \<Rightarrow> string \<Rightarrow> string \<Rightarrow> error + string" where
  "split_xml_node env xml_content node_path =
     (case fromstring_recover env (strip_declaration xml_content) of
        Inl e \<Rightarrow> Inl e
      | Inr None \<Rightarrow> Inl AttributeError
      | Inr (Some root) \<Rightarrow>
          (case split_node env node_path root of
             (Inl e, _) \<Rightarrow> Inl e
           | (Inr _, root') \<Rightarrow> Inr (tostring env root')))"

subsection \<open>The words of the specification\<close>

text \<open>
  "Text content that is empty or whitespace-only", said without \<^verbatim>\<open>strip\<close>: no direct text,
  or direct text made of whitespace characters only.
\<close>

definition blank :: "element \<Rightarrow> bool" where
  "blank element = (case text_of element of None \<Rightarrow> True | Some t \<Rightarrow> list_all is_space t)"

subsection \<open>A sample run\<close>

text \<open>
  One document, one path expression and one reply, with library functions that know
  exactly these (and a serializer without indentation); the theorems below are
  instantiated at them.
\<close>

definition job_xml :: string where
  "job_xml = ''<job><title>Dev</title><description>Build. Pay.</description><id>7</id></job>''"

definition job_root :: element where
  "job_root = Element ''job'' [] None
     [Element ''title'' [] (Some ''Dev'') [] None,
      Element ''description'' [] (Some ''Build. Pay.'') [] None,
      Element ''id'' [] (Some ''7'') [] None] None"

definition reply_text :: string where
  "reply_text = ''<task>Build.</task><profile> <b>x</b></profile>y<offer>Pay.</offer>''"

definition reply_root :: element where
  "reply_root = Element ''root'' [] None
     [Element ''task'' [] (Some ''Build.'') [] None,
      Element ''profile'' [] (Some '' '') [Element ''b'' [] (Some ''x'') [] None] (Some ''y''),
      Element ''offer'' [] (Some ''Pay.'') [] None] None"

text \<open>A second document, with three \<^verbatim>\<open>description\<close> elements at different depths.\<close>

definition jobs_root :: element where
  "jobs_root = Element ''jobs'' [] None
     [Element ''job'' [] None
        [Element ''title'' [] (Some ''Dev'') [] None,
         Element ''description'' [] (Some ''A'') [] None] None,
      Element ''description'' [] (Some ''B'') [] None,
      Element ''job'' [] None [Element ''description'' [] (Some ''C'') [] None] None] None"

fun compact :: "element \<Rightarrow> string" where
  "compact (Element t a x cs ta) =
     ''<'' @ t @ ''>'' @ (case x of None \<Rightarrow> [] | Some s \<Rightarrow> s) @ concat (map compact cs)
     @ ''</'' @ t @ ''>'' @ (case ta of None \<Rightarrow> [] | Some s \<Rightarrow> s)"

definition job_env :: "string option \<Rightarrow> env" where
  "job_env response =
     \<lparr> fromstring_recover = (\<lambda>s. if s = job_xml then Inr (Some job_root) else Inl XMLSyntaxError),
       xpath_compile = (\<lambda>expr.
          if expr = ''//description''
          then Some (\<lambda>root p. case node_at root p of None \<Rightarrow> False | Some e \<Rightarrow> tag e = ''description'')
          else if expr = ''/job'' then Some (\<lambda>root p. p = [])
          else if expr = ''//salary'' then Some (\<lambda>root p. False)
          else None),
       post = (\<lambda>url data. case response of None \<Rightarrow> RequestException
                 | Some r \<Rightarrow> Reply [''response'' \<mapsto> r]),
       fromstring = (\<lambda>s. if s = ''<root>'' @ reply_text @ ''</root>'' then Some reply_root else None),
       tostring = compact \<rparr>"

section \<open>Properties\<close>

subsection \<open>The splice loop and the tree\<close>

lemma insert_loop_eq:
  "index \<le> length cs \<Longrightarrow>
   insert_loop es index cs = take index cs @ filter has_text es @ drop index cs"
proof (induction es arbitrary: index cs)
  case Nil
  then show ?case by simp
next
  case (Cons e es)
  show ?case
  proof (cases "has_text e")
    case True
    have len: "index + 1 \<le> length (list_insert index e cs)"
      using Cons.prems by (simp add: list_insert_def)
    have "insert_loop (e # es) index cs = insert_loop es (index + 1) (list_insert index e cs)"
      using True by simp
    also have "\<dots> = take (index + 1) (list_insert index e cs) @ filter has_text es
                      @ drop (index + 1) (list_insert index e cs)"
      by (rule Cons.IH [OF len])
    also have "take (index + 1) (list_insert index e cs) = take index cs @ [e]"
      using Cons.prems by (simp add: list_insert_def min_def)
    also have "drop (index + 1) (list_insert index e cs) = drop index cs"
      using Cons.prems by (simp add: list_insert_def min_def)
    finally show ?thesis using True by simp
  next
    case False
    then show ?thesis using Cons by simp
  qed
qed

lemma remove_insert_eq:
  "i < length cs \<Longrightarrow>
   insert_loop es i (list_remove i cs) = take i cs @ filter has_text es @ drop (Suc i) cs"
  by (simp add: insert_loop_eq list_remove_def min_def)

lemma nodes_iff:
  "((p, e) \<in> set (nodes r)) = (node_at r p = Some e)"
  "((p, e) \<in> set (nodes_from i cs)) =
     (\<exists>j q. p = (i + j) # q \<and> j < length cs \<and> node_at (cs ! j) q = Some e)"
proof (induction r and i cs arbitrary: p e and p e rule: nodes_nodes_from.induct)
  case (1 t a x cs ta)
  show ?case
  proof (cases p)
    case Nil
    then show ?thesis using 1 by auto
  next
    case (Cons k q)
    then show ?thesis using 1 by auto
  qed
next
  case (2 i)
  then show ?case by simp
next
  case (3 i c cs)
  show ?case
  proof
    assume "(p, e) \<in> set (nodes_from i (c # cs))"
    then consider q where "p = i # q" "(q, e) \<in> set (nodes c)"
      | "(p, e) \<in> set (nodes_from (Suc i) cs)"
      by auto
    then show "\<exists>j q. p = (i + j) # q \<and> j < length (c # cs) \<and> node_at ((c # cs) ! j) q = Some e"
    proof cases
      case 1
      then have "p = (i + 0) # q \<and> 0 < length (c # cs) \<and> node_at ((c # cs) ! 0) q = Some e"
        using 3 by simp
      then show ?thesis by blast
    next
      case 2
      then obtain j q where "p = (Suc i + j) # q" "j < length cs" "node_at (cs ! j) q = Some e"
        using 3 by blast
      then have "p = (i + Suc j) # q \<and> Suc j < length (c # cs) \<and> node_at ((c # cs) ! Suc j) q = Some e"
        by simp
      then show ?thesis by blast
    qed
  next
    assume "\<exists>j q. p = (i + j) # q \<and> j < length (c # cs) \<and> node_at ((c # cs) ! j) q = Some e"
    then obtain j q where jq: "p = (i + j) # q" "j < length (c # cs)" "node_at ((c # cs) ! j) q = Some e"
      by blast
    show "(p, e) \<in> set (nodes_from i (c # cs))"
    proof (cases j)
      case 0
      then show ?thesis using jq 3 by auto
    next
      case (Suc k)
      then have "p = (Suc i + k) # q \<and> k < length cs \<and> node_at (cs ! k) q = Some e"
        using jq by simp
      then have "(p, e) \<in> set (nodes_from (Suc i) cs)"
        using 3 by blast
      then show ?thesis by simp
    qed
  qed
qed

text \<open>The list \<open>nodes\<close> is in document order.\<close>

lemma nodes_document_order:
  "sorted_wrt (\<lambda>a b. before_in_document (fst a) (fst b)) (nodes r)"
  "sorted_wrt (\<lambda>a b. before_in_document (fst a) (fst b)) (nodes_from i cs)"
proof (induction r and i cs rule: nodes_nodes_from.induct)
  case (1 t a x cs ta)
  have "before_in_document [] (fst b)" if "b \<in> set (nodes_from 0 cs)" for b
  proof -
    from that have "(fst b, snd b) \<in> set (nodes_from 0 cs)" by simp
    then obtain j q where "fst b = (0 + j) # q"
      unfolding nodes_iff(2) by blast
    then show ?thesis by (simp add: before_in_document_def)
  qed
  with 1 show ?case by simp
next
  case (2 i)
  show ?case by simp
next
  case (3 i c cs)
  have a: "sorted_wrt (\<lambda>a b. before_in_document (fst a) (fst b))
             (map (\<lambda>(p, e). (i # p, e)) (nodes c))"
    using 3(1) by (simp add: sorted_wrt_map case_prod_beta before_in_document_def)
  have b: "before_in_document (fst x) (fst y)"
    if "x \<in> set (map (\<lambda>(p, e). (i # p, e)) (nodes c))" "y \<in> set (nodes_from (Suc i) cs)" for x y
  proof -
    from that(1) obtain p where x: "fst x = i # p" by auto
    from that(2) have "(fst y, snd y) \<in> set (nodes_from (Suc i) cs)" by simp
    then obtain j q where "fst y = (Suc i + j) # q"
      unfolding nodes_iff(2) by blast
    with x show ?thesis by (simp add: before_in_document_def)
  qed
  from a b 3(2) show ?case by (simp add: sorted_wrt_append)
qed

lemma node_at_snoc:
  "node_at r (pp @ [i]) = Some e \<longleftrightarrow>
   (\<exists>par. node_at r pp = Some par \<and> i < length (children par) \<and> children par ! i = e)"
  by (induction pp arbitrary: r) auto

lemma node_at_modify_children:
  "node_at r pp = Some par \<Longrightarrow>
   node_at (modify_children pp f r) pp =
     Some (Element (tag par) (attrib par) (text_of par) (f (children par)) (tail par))"
proof (induction pp arbitrary: r)
  case Nil
  then show ?case by (cases r) auto
next
  case (Cons i pp)
  then show ?case by (cases r) (auto split: if_splits)
qed

lemma strip_Nil_iff: "strip t = [] \<longleftrightarrow> list_all is_space t"
proof -
  have "(\<forall>x\<in>set (dropWhile is_space t). is_space x) \<longleftrightarrow> (\<forall>x\<in>set t. is_space x)"
  proof
    assume a: "\<forall>x\<in>set (dropWhile is_space t). is_space x"
    have "dropWhile is_space t = []"
    proof (rule ccontr)
      assume n: "dropWhile is_space t \<noteq> []"
      then have "\<not> is_space (hd (dropWhile is_space t))" by (rule hd_dropWhile)
      moreover have "hd (dropWhile is_space t) \<in> set (dropWhile is_space t)" using n by simp
      ultimately show False using a by blast
    qed
    then show "\<forall>x\<in>set t. is_space x" by (simp add: dropWhile_eq_Nil_conv)
  next
    assume "\<forall>x\<in>set t. is_space x"
    then show "\<forall>x\<in>set (dropWhile is_space t). is_space x"
      by (meson set_dropWhileD)
  qed
  then show ?thesis
    by (simp add: strip_def dropWhile_eq_Nil_conv list_all_iff)
qed

lemma has_text_iff_blank: "has_text e \<longleftrightarrow> \<not> blank e"
proof (cases "text_of e")
  case None
  then show ?thesis by (simp add: has_text_def blank_def)
next
  case (Some t)
  have "t = [] \<Longrightarrow> strip t = []" by (simp add: strip_def)
  then show ?thesis using Some
    by (auto simp: has_text_def blank_def strip_Nil_iff)
qed

lemma locate_node_in_tree:
  assumes "locate_node env root node_path = Inr (p, e)"
  shows "node_at root p = Some e"
proof -
  from assms obtain selects rest where
    "filter (\<lambda>(p, e). selects root p) (nodes root) = (p, e) # rest"
    by (auto simp: locate_node_def xpath_def split: option.splits list.splits)
  then have "(p, e) \<in> set (filter (\<lambda>(p, e). selects root p) (nodes root))" by simp
  then show ?thesis by (simp add: nodes_iff)
qed

lemma split_node_replace:
  assumes "locate_node env root node_path = Inr (parent @ [i], target)"
    and "ask_codellama env (prompt (tag target) (original_content target)) = Some split_content"
    and "fromstring env (''<root>'' @ split_content @ ''</root>'') = Some split_root"
  shows "split_node env node_path root =
           (Inr (), modify_children parent
                      (\<lambda>cs. insert_loop (children split_root) i (list_remove i cs)) root)"
  using assms
  by (simp add: split_node_def parse_split_content_def replace_node_def getparent_def)

lemma split_node_children:
  assumes loc: "locate_node env root node_path = Inr (parent @ [i], target)"
    and ask: "ask_codellama env (prompt (tag target) (original_content target)) = Some split_content"
    and parse: "fromstring env (''<root>'' @ split_content @ ''</root>'') = Some split_root"
  shows "\<exists>before root'.
           node_at root parent = Some before \<and> i < length (children before) \<and>
           children before ! i = target \<and>
           split_node env node_path root = (Inr (), root') \<and>
           node_at root' parent =
             Some (Element (tag before) (attrib before) (text_of before)
                     (take i (children before) @ filter has_text (children split_root)
                      @ drop (Suc i) (children before))
                     (tail before))"
proof -
  from locate_node_in_tree [OF loc] obtain before where
    b: "node_at root parent = Some before" "i < length (children before)"
       "children before ! i = target"
    by (auto simp: node_at_snoc)
  let ?f = "\<lambda>cs. insert_loop (children split_root) i (list_remove i cs)"
  have "node_at (modify_children parent ?f root) parent =
          Some (Element (tag before) (attrib before) (text_of before) (?f (children before))
                  (tail before))"
    by (rule node_at_modify_children [OF b(1)])
  then show ?thesis
    using b split_node_replace [OF loc ask parse] by (simp add: remove_insert_eq)
qed

lemma splice_positions:
  fixes cs reps :: "'a list"
  assumes "i < length cs" and "cs' = take i cs @ reps @ drop (Suc i) cs"
  shows "length cs' = length cs - 1 + length reps"
    and "\<forall>j<length reps. cs' ! (i + j) = reps ! j"
    and "\<forall>j<i. cs' ! j = cs ! j"
    and "\<forall>j. i < j \<and> j < length cs \<longrightarrow> cs' ! (j + length reps - 1) = cs ! j"
proof -
  show "length cs' = length cs - 1 + length reps"
    using assms by simp
  show "\<forall>j<length reps. cs' ! (i + j) = reps ! j"
    using assms by (simp add: nth_append)
  show "\<forall>j<i. cs' ! j = cs ! j"
    using assms by (simp add: nth_append)
  show "\<forall>j. i < j \<and> j < length cs \<longrightarrow> cs' ! (j + length reps - 1) = cs ! j"
  proof (intro allI impI)
    fix j assume j: "i < j \<and> j < length cs"
    then have "j + length reps - 1 = i + length reps + (j - Suc i)" by simp
    moreover have "cs' ! (i + length reps + (j - Suc i)) = drop (Suc i) cs ! (j - Suc i)"
    proof -
      have l: "length (take i cs @ reps) = i + length reps" using assms by simp
      have "((take i cs @ reps) @ drop (Suc i) cs) ! (length (take i cs @ reps) + (j - Suc i))
              = drop (Suc i) cs ! (j - Suc i)"
        by (rule nth_append_length_plus)
      then show ?thesis using assms(2) l by simp
    qed
    moreover have "drop (Suc i) cs ! (j - Suc i) = cs ! j"
      using j by simp
    ultimately show "cs' ! (j + length reps - 1) = cs ! j" by simp
  qed
qed

lemma split_xml_node_ok:
  assumes "fromstring_recover env (strip_declaration xml_content) = Inr (Some root)"
    and "split_node env node_path root = (Inr (), root')"
  shows "split_xml_node env xml_content node_path = Inr (tostring env root')"
  using assms by (simp add: split_xml_node_def)

subsection \<open>The sample run, evaluated\<close>

lemma job_load: "fromstring_recover (job_env r) (strip_declaration job_xml) = Inr (Some job_root)"
  by (simp add: job_env_def strip_declaration_def job_xml_def match_decl_def strip_def is_space_def)

lemma job_locate:
  "locate_node (job_env r) job_root ''//description'' =
     Inr ([] @ [1], Element ''description'' [] (Some ''Build. Pay.'') [] None)"
  by (simp add: locate_node_def xpath_def job_env_def job_root_def)

lemma job_ask:
  "ask_codellama (job_env (Some r)) p = Some r"
  by (simp add: ask_codellama_def job_env_def)

lemma job_parse:
  "fromstring (job_env r) (''<root>'' @ reply_text @ ''</root>'') = Some reply_root"
  by (simp add: job_env_def)

lemma job_replacements:
  "filter (\<lambda>e. \<not> blank e) (children reply_root) =
     [Element ''task'' [] (Some ''Build.'') [] None, Element ''offer'' [] (Some ''Pay.'') [] None]"
  by (simp add: reply_root_def blank_def is_space_def)

subsection \<open>Claims about the splice\<close>

text \<open>
  C1. When the document parses to \<open>root\<close>, the path expression's first match is the child
  number \<open>i\<close> of the node \<open>parent\<close>, the gateway answers and the answer parses, the split
  succeeds. With \<open>k\<close> replacement elements that are not blank, the children of the parent
  afterwards hold the replacements at the positions \<open>i, ..., i + k - 1\<close> in the order of the
  parsed reply, the siblings before \<open>i\<close> where they were, and every sibling after \<open>i\<close>
  moved by \<open>k - 1\<close>.
\<close>

theorem split_positions:
  assumes load: "fromstring_recover env (strip_declaration xml_content) = Inr (Some root)"
    and loc: "locate_node env root node_path = Inr (parent @ [i], target)"
    and ask: "ask_codellama env (prompt (tag target) (original_content target)) = Some split_content"
    and parse: "fromstring env (''<root>'' @ split_content @ ''</root>'') = Some split_root"
    and reps: "replacements = filter (\<lambda>e. \<not> blank e) (children split_root)"
    and k: "k = length replacements"
  shows "\<exists>before after root'.
           node_at root parent = Some before \<and> i < length (children before) \<and>
           children before ! i = target \<and>
           split_xml_node env xml_content node_path = Inr (tostring env root') \<and>
           node_at root' parent = Some after \<and>
           length (children after) = length (children before) - 1 + k \<and>
           (\<forall>j<k. children after ! (i + j) = replacements ! j) \<and>
           (\<forall>j<i. children after ! j = children before ! j) \<and>
           (\<forall>j. i < j \<and> j < length (children before) \<longrightarrow>
                children after ! (j + k - 1) = children before ! j)"
proof -
  from split_node_children [OF loc ask parse] obtain before root' where
    b: "node_at root parent = Some before" "i < length (children before)"
       "children before ! i = target"
    and s: "split_node env node_path root = (Inr (), root')"
    and a: "node_at root' parent =
             Some (Element (tag before) (attrib before) (text_of before)
                     (take i (children before) @ filter has_text (children split_root)
                      @ drop (Suc i) (children before))
                     (tail before))"
    by blast
  define after where
    "after = Element (tag before) (attrib before) (text_of before)
               (take i (children before) @ filter has_text (children split_root)
                @ drop (Suc i) (children before))
               (tail before)"
  have r: "filter has_text (children split_root) = replacements"
    unfolding reps by (rule filter_cong) (simp_all add: has_text_iff_blank)
  have c: "children after = take i (children before) @ replacements @ drop (Suc i) (children before)"
    by (simp add: after_def r)
  note p = splice_positions [OF b(2) c]
  have "node_at root' parent = Some after" using a by (simp add: after_def)
  moreover have "split_xml_node env xml_content node_path = Inr (tostring env root')"
    by (rule split_xml_node_ok [OF load s])
  ultimately show ?thesis using b p k by blast
qed

theorem split_positions_witness:
  "fromstring_recover (job_env (Some reply_text)) (strip_declaration job_xml) = Inr (Some job_root) \<and>
   locate_node (job_env (Some reply_text)) job_root ''//description'' =
     Inr ([] @ [1], Element ''description'' [] (Some ''Build. Pay.'') [] None) \<and>
   ask_codellama (job_env (Some reply_text))
     (prompt ''description'' ''Build. Pay.'') = Some reply_text \<and>
   fromstring (job_env (Some reply_text)) (''<root>'' @ reply_text @ ''</root>'') = Some reply_root \<and>
   (\<exists>before after root'.
      node_at job_root [] = Some before \<and> 1 < length (children before) \<and>
      children before ! 1 = Element ''description'' [] (Some ''Build. Pay.'') [] None \<and>
      split_xml_node (job_env (Some reply_text)) job_xml ''//description'' =
        Inr (tostring (job_env (Some reply_text)) root') \<and>
      node_at root' [] = Some after \<and>
      length (children after) = length (children before) - 1 + 2 \<and>
      (\<forall>j<2. children after ! (1 + j) =
         [Element ''task'' [] (Some ''Build.'') [] None,
          Element ''offer'' [] (Some ''Pay.'') [] None] ! j) \<and>
      (\<forall>j<1. children after ! j = children before ! j) \<and>
      (\<forall>j. 1 < j \<and> j < length (children before) \<longrightarrow>
           children after ! (j + 2 - 1) = children before ! j))"
proof -
  let ?env = "job_env (Some reply_text)"
  let ?d = "Element ''description'' [] (Some ''Build. Pay.'') [] None"
  have ask: "ask_codellama ?env (prompt (tag ?d) (original_content ?d)) = Some reply_text"
    by (rule job_ask)
  have k: "(2::nat) = length [Element ''task'' [] (Some ''Build.'') [] None,
                              Element ''offer'' [] (Some ''Pay.'') [] None]"
    by simp
  note t = split_positions [OF job_load job_locate ask job_parse job_replacements [symmetric] k]
  have "ask_codellama ?env (prompt ''description'' ''Build. Pay.'') = Some reply_text"
    by (rule job_ask)
  with t job_load job_locate job_parse show ?thesis by blast
qed

text \<open>
  C2. After a successful split the elements spliced in are exactly the elements of the
  parsed reply that are not blank (direct text neither absent, empty nor whitespace-only),
  in their order. So no blank element is inserted, and the number of spliced-in
  elements is at most the number of non-blank elements of the reply.
\<close>

theorem blank_replacements_skipped:
  assumes load: "fromstring_recover env (strip_declaration xml_content) = Inr (Some root)"
    and loc: "locate_node env root node_path = Inr (parent @ [i], target)"
    and ask: "ask_codellama env (prompt (tag target) (original_content target)) = Some split_content"
    and parse: "fromstring env (''<root>'' @ split_content @ ''</root>'') = Some split_root"
  shows "\<exists>before after root' spliced.
           node_at root parent = Some before \<and> i < length (children before) \<and>
           split_xml_node env xml_content node_path = Inr (tostring env root') \<and>
           node_at root' parent = Some after \<and>
           children after = take i (children before) @ spliced @ drop (Suc i) (children before) \<and>
           spliced = filter (\<lambda>e. \<not> blank e) (children split_root) \<and>
           (\<forall>e\<in>set spliced. \<not> blank e) \<and>
           length spliced \<le> length (filter (\<lambda>e. \<not> blank e) (children split_root))"
proof -
  from split_node_children [OF loc ask parse] obtain before root' where
    b: "node_at root parent = Some before" "i < length (children before)"
    and s: "split_node env node_path root = (Inr (), root')"
    and a: "node_at root' parent =
             Some (Element (tag before) (attrib before) (text_of before)
                     (take i (children before) @ filter has_text (children split_root)
                      @ drop (Suc i) (children before))
                     (tail before))"
    by blast
  define spliced where "spliced = filter (\<lambda>e. \<not> blank e) (children split_root)"
  define after where
    "after = Element (tag before) (attrib before) (text_of before)
               (take i (children before) @ spliced @ drop (Suc i) (children before))
               (tail before)"
  have r: "filter has_text (children split_root) = spliced"
    unfolding spliced_def by (rule filter_cong) (simp_all add: has_text_iff_blank)
  have "node_at root' parent = Some after" using a by (simp add: after_def r)
  moreover have "children after = take i (children before) @ spliced @ drop (Suc i) (children before)"
    by (simp add: after_def)
  moreover have "split_xml_node env xml_content node_path = Inr (tostring env root')"
    by (rule split_xml_node_ok [OF load s])
  moreover have "\<forall>e\<in>set spliced. \<not> blank e" by (simp add: spliced_def)
  moreover have "length spliced \<le> length (filter (\<lambda>e. \<not> blank e) (children split_root))"
    by (simp add: spliced_def)
  ultimately show ?thesis using b spliced_def by blast
qed

theorem blank_replacements_skipped_witness:
  "fromstring_recover (job_env (Some reply_text)) (strip_declaration job_xml) = Inr (Some job_root) \<and>
   locate_node (job_env (Some reply_text)) job_root ''//description'' =
     Inr ([] @ [1], Element ''description'' [] (Some ''Build. Pay.'') [] None) \<and>
   ask_codellama (job_env (Some reply_text))
     (prompt ''description'' ''Build. Pay.'') = Some reply_text \<and>
   fromstring (job_env (Some reply_text)) (''<root>'' @ reply_text @ ''</root>'') = Some reply_root \<and>
   blank (children reply_root ! 1) \<and>
   (\<exists>before after root' spliced.
      node_at job_root [] = Some before \<and> 1 < length (children before) \<and>
      split_xml_node (job_env (Some reply_text)) job_xml ''//description'' =
        Inr (tostring (job_env (Some reply_text)) root') \<and>
      node_at root' [] = Some after \<and>
      children after = take 1 (children before) @ spliced @ drop (Suc 1) (children before) \<and>
      spliced = [Element ''task'' [] (Some ''Build.'') [] None,
                 Element ''offer'' [] (Some ''Pay.'') [] None] \<and>
      (\<forall>e\<in>set spliced. \<not> blank e) \<and>
      length spliced \<le> 2)"
proof -
  let ?env = "job_env (Some reply_text)"
  let ?d = "Element ''description'' [] (Some ''Build. Pay.'') [] None"
  have ask: "ask_codellama ?env (prompt (tag ?d) (original_content ?d)) = Some reply_text"
    by (rule job_ask)
  note t = blank_replacements_skipped [OF job_load job_locate ask job_parse]
  have a: "ask_codellama ?env (prompt ''description'' ''Build. Pay.'') = Some reply_text"
    by (rule job_ask)
  have b: "blank (children reply_root ! 1)"
    by (simp add: reply_root_def blank_def is_space_def)
  from t show ?thesis
    unfolding job_replacements using job_load job_locate job_parse a b by simp
qed

text \<open>An element without direct text does not change what the loop does.\<close>

lemma insert_loop_skip:
  "\<not> has_text e \<Longrightarrow>
   insert_loop (es1 @ e # es2) index cs = insert_loop (es1 @ es2) index cs"
  by (induction es1 arbitrary: index cs) simp_all

text \<open>
  C10. The test of line 65 reads the direct text only: for every direct text, two
  elements that have it get the same verdict, whatever their tags, attributes, children
  and tails. And an element whose direct text is absent or whitespace-only is skipped by
  the loop, also when it has children with text or a tail.
\<close>

theorem filter_reads_direct_text_only:
  "has_text (Element t a x cs ta) = has_text (Element t' a' x cs' ta') \<and>
   (y = None \<or> (\<exists>s. y = Some s \<and> list_all is_space s) \<longrightarrow>
      \<not> has_text (Element u b y ds tb) \<and>
      insert_loop (es1 @ Element u b y ds tb # es2) index siblings =
        insert_loop (es1 @ es2) index siblings)"
proof (intro conjI impI)
  show "has_text (Element t a x cs ta) = has_text (Element t' a' x cs' ta')"
    by (simp add: has_text_def)
next
  assume "y = None \<or> (\<exists>s. y = Some s \<and> list_all is_space s)"
  then have "blank (Element u b y ds tb)"
    by (auto simp: blank_def)
  then show n: "\<not> has_text (Element u b y ds tb)"
    by (simp add: has_text_iff_blank)
  show "insert_loop (es1 @ Element u b y ds tb # es2) index siblings =
          insert_loop (es1 @ es2) index siblings"
    by (rule insert_loop_skip [OF n])
qed

theorem filter_reads_direct_text_only_witness:
  "has_text (Element ''task'' [(''k'', ''v'')] (Some ''A'') [Element ''b'' [] None [] None] (Some ''z''))
     = has_text (Element ''p'' [] (Some ''A'') [] None) \<and>
   has_text (Element ''task'' [(''k'', ''v'')] (Some ''A'') [Element ''b'' [] None [] None] (Some ''z'')) \<and>
   (Some '' '' = None \<or> (\<exists>s. Some '' '' = Some s \<and> list_all is_space s)) \<and>
   \<not> has_text (Element ''profile'' [] (Some '' '') [Element ''b'' [] (Some ''x'') [] None] (Some ''y'')) \<and>
   insert_loop ([Element ''task'' [] (Some ''Build.'') [] None]
                @ Element ''profile'' [] (Some '' '') [Element ''b'' [] (Some ''x'') [] None] (Some ''y'')
                # [Element ''offer'' [] (Some ''Pay.'') [] None]) 1
               [Element ''title'' [] (Some ''Dev'') [] None, Element ''id'' [] (Some ''7'') [] None] =
   [Element ''title'' [] (Some ''Dev'') [] None, Element ''task'' [] (Some ''Build.'') [] None,
    Element ''offer'' [] (Some ''Pay.'') [] None, Element ''id'' [] (Some ''7'') [] None]"
proof -
  have h: "Some '' '' = None \<or> (\<exists>s. Some '' '' = Some s \<and> list_all is_space s)"
    by (simp add: is_space_def)
  have p: "has_text (Element ''p'' [] (Some ''A'') [] None)"
    by (simp add: has_text_def strip_def is_space_def)
  have e: "insert_loop ([Element ''task'' [] (Some ''Build.'') [] None]
                        @ [Element ''offer'' [] (Some ''Pay.'') [] None]) 1
             [Element ''title'' [] (Some ''Dev'') [] None, Element ''id'' [] (Some ''7'') [] None] =
           [Element ''title'' [] (Some ''Dev'') [] None, Element ''task'' [] (Some ''Build.'') [] None,
            Element ''offer'' [] (Some ''Pay.'') [] None, Element ''id'' [] (Some ''7'') [] None]"
    by (simp add: has_text_def strip_def is_space_def list_insert_def)
  note t = filter_reads_direct_text_only [
      of "''task''" "[(''k'', ''v'')]" "Some ''A''" "[Element ''b'' [] None [] None]" "Some ''z''"
         "''p''" "[]" "[]" None
         "Some '' ''" "''profile''" "[]" "[Element ''b'' [] (Some ''x'') [] None]" "Some ''y''"
         "[Element ''task'' [] (Some ''Build.'') [] None]"
         "[Element ''offer'' [] (Some ''Pay.'') [] None]" 1
         "[Element ''title'' [] (Some ''Dev'') [] None, Element ''id'' [] (Some ''7'') [] None]"]
  from t have t1: "has_text (Element ''task'' [(''k'', ''v'')] (Some ''A'') [Element ''b'' [] None [] None] (Some ''z''))
               = has_text (Element ''p'' [] (Some ''A'') [] None)"
    by (rule conjunct1)
  from t1 p have t1': "has_text (Element ''task'' [(''k'', ''v'')] (Some ''A'') [Element ''b'' [] None [] None] (Some ''z''))"
    by (rule iffD2)
  note s = t [THEN conjunct2, THEN mp, OF h]
  from s have t2: "\<not> has_text (Element ''profile'' [] (Some '' '') [Element ''b'' [] (Some ''x'') [] None] (Some ''y''))"
    by (rule conjunct1)
  from s have t3: "insert_loop ([Element ''task'' [] (Some ''Build.'') [] None]
                @ Element ''profile'' [] (Some '' '') [Element ''b'' [] (Some ''x'') [] None] (Some ''y'')
                # [Element ''offer'' [] (Some ''Pay.'') [] None]) 1
               [Element ''title'' [] (Some ''Dev'') [] None, Element ''id'' [] (Some ''7'') [] None] =
             insert_loop ([Element ''task'' [] (Some ''Build.'') [] None]
                        @ [Element ''offer'' [] (Some ''Pay.'') [] None]) 1
             [Element ''title'' [] (Some ''Dev'') [] None, Element ''id'' [] (Some ''7'') [] None]"
    by (rule conjunct2)
  show ?thesis
    by (intro conjI t1 t1' h t2 trans [OF t3 e])
qed

subsection \<open>Claims about failures\<close>

text \<open>Whenever lines 22 to 67 end in an exception, the tree is the one that was parsed.\<close>

lemma split_node_failure_keeps_tree:
  "split_node env node_path root = (Inl e, root') \<Longrightarrow> root' = root"
  by (auto simp: split_node_def replace_node_def Let_def
           split: sum.splits prod.splits option.splits)

lemma split_xml_node_failed:
  assumes "fromstring_recover env (strip_declaration xml_content) = Inr (Some root)"
    and "split_node env node_path root = (Inl e, root')"
  shows "split_xml_node env xml_content node_path = Inl e"
  using assms by (simp add: split_xml_node_def)

text \<open>
  C3. When the gateway's reply, wrapped in the synthetic root, does not parse, the split
  raises \<^verbatim>\<open>Exception("CodeLlama returned invalid XML")\<close> (the specification's
  \<open>InvalidModelOutput\<close>) and the tree is the one that was parsed from the input. More
  generally the tree is changed by no run that ends in an exception: lines 63 to 67 are
  the only ones that change it, and nothing raises after line 62.
\<close>

theorem invalid_reply_leaves_tree:
  assumes load: "fromstring_recover env (strip_declaration xml_content) = Inr (Some root)"
    and loc: "locate_node env root node_path = Inr (node, target)"
    and ask: "ask_codellama env (prompt (tag target) (original_content target)) = Some split_content"
    and parse: "fromstring env (''<root>'' @ split_content @ ''</root>'') = None"
  shows "split_node env node_path root = (Inl (Exception ''CodeLlama returned invalid XML''), root) \<and>
         split_xml_node env xml_content node_path = Inl (Exception ''CodeLlama returned invalid XML'') \<and>
         (\<forall>path e root'. split_node env path root = (Inl e, root') \<longrightarrow> root' = root)"
proof -
  have s: "split_node env node_path root = (Inl (Exception ''CodeLlama returned invalid XML''), root)"
    using loc ask parse by (simp add: split_node_def parse_split_content_def)
  from split_xml_node_failed [OF load s] s split_node_failure_keeps_tree
  show ?thesis by blast
qed

lemma job_locate_any:
  "locate_node (job_env r) job_root ''//description'' =
     Inr ([1], Element ''description'' [] (Some ''Build. Pay.'') [] None)"
  using job_locate by simp

theorem invalid_reply_leaves_tree_witness:
  "fromstring_recover (job_env (Some ''<task>'')) (strip_declaration job_xml) = Inr (Some job_root) \<and>
   locate_node (job_env (Some ''<task>'')) job_root ''//description'' =
     Inr ([1], Element ''description'' [] (Some ''Build. Pay.'') [] None) \<and>
   ask_codellama (job_env (Some ''<task>'')) (prompt ''description'' ''Build. Pay.'') = Some ''<task>'' \<and>
   fromstring (job_env (Some ''<task>'')) (''<root>'' @ ''<task>'' @ ''</root>'') = None \<and>
   split_node (job_env (Some ''<task>'')) ''//description'' job_root =
     (Inl (Exception ''CodeLlama returned invalid XML''), job_root) \<and>
   split_xml_node (job_env (Some ''<task>'')) job_xml ''//description'' =
     Inl (Exception ''CodeLlama returned invalid XML'')"
proof -
  let ?env = "job_env (Some ''<task>'')"
  let ?d = "Element ''description'' [] (Some ''Build. Pay.'') [] None"
  have ask: "ask_codellama ?env (prompt (tag ?d) (original_content ?d)) = Some ''<task>''"
    by (rule job_ask)
  have parse: "fromstring ?env (''<root>'' @ ''<task>'' @ ''</root>'') = None"
    by (simp add: job_env_def reply_text_def)
  note t = invalid_reply_leaves_tree [OF job_load job_locate_any ask parse]
  have a: "ask_codellama ?env (prompt ''description'' ''Build. Pay.'') = Some ''<task>''"
    by (rule job_ask)
  from t show ?thesis using job_load job_locate_any a parse by blast
qed

text \<open>
  C4, as the code has it. When the first match is the root, \<^verbatim>\<open>getparent()\<close> is \<^verbatim>\<open>None\<close> and
  the splice cannot start: \<^verbatim>\<open>parent.index\<close> raises \<^verbatim>\<open>AttributeError\<close>, the code's only
  counterpart of \<open>CannotSplitRoot\<close>. The split of the root therefore never returns a
  document and never changes the tree. But line 61 is reached only after the gateway
  call and the parse of the reply: a missing reply or an unparseable one is reported
  first, with its own exception.
\<close>

theorem root_split_fails:
  assumes load: "fromstring_recover env (strip_declaration xml_content) = Inr (Some root)"
    and loc: "locate_node env root node_path = Inr ([], target)"
  shows "split_xml_node env xml_content node_path =
           Inl (case ask_codellama env (prompt (tag target) (original_content target)) of
                  None \<Rightarrow> Exception ''Failed to get a response from CodeLlama''
                | Some split_content \<Rightarrow>
                    (case fromstring env (''<root>'' @ split_content @ ''</root>'') of
                       None \<Rightarrow> Exception ''CodeLlama returned invalid XML''
                     | Some split_root \<Rightarrow> AttributeError)) \<and>
         snd (split_node env node_path root) = root \<and>
         replace_node [] elements root = (Inl AttributeError, root)"
proof -
  have r: "replace_node [] es root = (Inl AttributeError, root)" for es
    by (simp add: replace_node_def getparent_def)
  have "\<exists>e. split_node env node_path root = (Inl e, root) \<and>
          e = (case ask_codellama env (prompt (tag target) (original_content target)) of
                  None \<Rightarrow> Exception ''Failed to get a response from CodeLlama''
                | Some split_content \<Rightarrow>
                    (case fromstring env (''<root>'' @ split_content @ ''</root>'') of
                       None \<Rightarrow> Exception ''CodeLlama returned invalid XML''
                     | Some split_root \<Rightarrow> AttributeError))"
    using loc r by (simp add: split_node_def parse_split_content_def split: option.splits)
  then obtain e where s: "split_node env node_path root = (Inl e, root)"
    and e: "e = (case ask_codellama env (prompt (tag target) (original_content target)) of
                  None \<Rightarrow> Exception ''Failed to get a response from CodeLlama''
                | Some split_content \<Rightarrow>
                    (case fromstring env (''<root>'' @ split_content @ ''</root>'') of
                       None \<Rightarrow> Exception ''CodeLlama returned invalid XML''
                     | Some split_root \<Rightarrow> AttributeError))"
    by blast
  from split_xml_node_failed [OF load s] have "split_xml_node env xml_content node_path = Inl e" .
  with e s r show ?thesis by simp
qed

lemma job_locate_root: "locate_node (job_env r) job_root ''/job'' = Inr ([], job_root)"
  by (simp add: locate_node_def xpath_def job_env_def job_root_def)

theorem root_split_fails_witness:
  "fromstring_recover (job_env (Some reply_text)) (strip_declaration job_xml) = Inr (Some job_root) \<and>
   locate_node (job_env (Some reply_text)) job_root ''/job'' = Inr ([], job_root) \<and>
   split_xml_node (job_env (Some reply_text)) job_xml ''/job'' = Inl AttributeError \<and>
   snd (split_node (job_env (Some reply_text)) ''/job'' job_root) = job_root \<and>
   replace_node [] (children reply_root) job_root = (Inl AttributeError, job_root)"
proof -
  note t = root_split_fails [OF job_load job_locate_root, of "Some reply_text" "children reply_root"]
  from t have "split_xml_node (job_env (Some reply_text)) job_xml ''/job'' = Inl AttributeError \<and>
      snd (split_node (job_env (Some reply_text)) ''/job'' job_root) = job_root \<and>
      replace_node [] (children reply_root) job_root = (Inl AttributeError, job_root)"
    by (simp only: job_ask job_parse option.case)
  then show ?thesis using job_load job_locate_root by blast
qed

text \<open>
  C4 as the specification states it fails when the gateway gives no reply: the target
  is the root, and the exception is the one of line 52.
\<close>

theorem root_split_counterexample:
  "locate_node (job_env None) job_root ''/job'' = Inr ([], job_root) \<and>
   split_xml_node (job_env None) job_xml ''/job'' =
     Inl (Exception ''Failed to get a response from CodeLlama'') \<and>
   split_xml_node (job_env None) job_xml ''/job'' \<noteq> Inl AttributeError"
proof -
  have a: "ask_codellama (job_env None) p = None" for p
    by (simp add: ask_codellama_def job_env_def)
  have "split_node (job_env None) ''/job'' job_root =
          (Inl (Exception ''Failed to get a response from CodeLlama''), job_root)"
    by (simp add: split_node_def job_locate_root a)
  then have "split_xml_node (job_env None) job_xml ''/job'' =
          Inl (Exception ''Failed to get a response from CodeLlama'')"
    by (simp add: split_xml_node_def job_load)
  then show ?thesis using job_locate_root by simp
qed

subsection \<open>Claims about the node locator\<close>

lemma locate_node_selected:
  assumes "locate_node env root node_path = Inr n"
  shows "\<exists>selects. xpath_compile env node_path = Some selects \<and> selects root (fst n) \<and>
           node_at root (fst n) = Some (snd n)"
proof -
  from assms obtain selects rest where c: "xpath_compile env node_path = Some selects"
    and f: "filter (\<lambda>(p, e). selects root p) (nodes root) = n # rest"
    by (auto simp: locate_node_def xpath_def split: option.splits list.splits)
  from f have "n \<in> set (filter (\<lambda>(p, e). selects root p) (nodes root))" by simp
  then have m: "selects root (fst n)" "n \<in> set (nodes root)"
    by (auto simp: case_prod_beta)
  have "node_at root (fst n) = Some (snd n)"
    using m(2) nodes_iff(1) [of "fst n" "snd n" root] by simp
  with c m(1) show ?thesis by simp
qed

text \<open>
  C5. Line 22 never goes on with an empty result. An expression the XPath engine rejects
  raises lxml's \<^verbatim>\<open>XPathEvalError\<close> (the specification's \<open>InvalidPathExpression\<close>); an
  expression that selects no node of the tree raises \<^verbatim>\<open>IndexError\<close> (its
  \<open>NodeNotFound\<close>); both leave \<^verbatim>\<open>split_xml_node\<close>. A node that is returned is a node of the
  tree that the expression selects.
\<close>

theorem locate_failures:
  assumes load: "fromstring_recover env (strip_declaration xml_content) = Inr (Some root)"
  shows "(xpath_compile env node_path = None \<longrightarrow>
            locate_node env root node_path = Inl XPathEvalError \<and>
            split_xml_node env xml_content node_path = Inl XPathEvalError) \<and>
         (\<forall>selects. xpath_compile env node_path = Some selects \<and>
              (\<forall>p e. node_at root p = Some e \<longrightarrow> \<not> selects root p) \<longrightarrow>
            locate_node env root node_path = Inl IndexError \<and>
            split_xml_node env xml_content node_path = Inl IndexError) \<and>
         (\<forall>n. locate_node env root node_path = Inr n \<longrightarrow>
            (\<exists>selects. xpath_compile env node_path = Some selects \<and> selects root (fst n) \<and>
               node_at root (fst n) = Some (snd n)))"
proof (intro conjI allI impI)
  assume c: "xpath_compile env node_path = None"
  then show l: "locate_node env root node_path = Inl XPathEvalError"
    by (simp add: locate_node_def xpath_def)
  then have "split_node env node_path root = (Inl XPathEvalError, root)"
    by (simp add: split_node_def)
  from split_xml_node_failed [OF load this]
  show "split_xml_node env xml_content node_path = Inl XPathEvalError" .
next
  fix selects
  assume a: "xpath_compile env node_path = Some selects \<and>
             (\<forall>p e. node_at root p = Some e \<longrightarrow> \<not> selects root p)"
  then have "filter (\<lambda>(p, e). selects root p) (nodes root) = []"
    by (auto simp: filter_empty_conv nodes_iff)
  with a show l: "locate_node env root node_path = Inl IndexError"
    by (simp add: locate_node_def xpath_def)
  then have "split_node env node_path root = (Inl IndexError, root)"
    by (simp add: split_node_def)
  from split_xml_node_failed [OF load this]
  show "split_xml_node env xml_content node_path = Inl IndexError" .
next
  fix n assume "locate_node env root node_path = Inr n"
  then show "\<exists>selects. xpath_compile env node_path = Some selects \<and> selects root (fst n) \<and>
               node_at root (fst n) = Some (snd n)"
    by (rule locate_node_selected)
qed

theorem locate_failures_witness:
  "fromstring_recover (job_env None) (strip_declaration job_xml) = Inr (Some job_root) \<and>
   xpath_compile (job_env None) ''//a['' = None \<and>
   locate_node (job_env None) job_root ''//a['' = Inl XPathEvalError \<and>
   split_xml_node (job_env None) job_xml ''//a['' = Inl XPathEvalError \<and>
   locate_node (job_env None) job_root ''//salary'' = Inl IndexError \<and>
   split_xml_node (job_env None) job_xml ''//salary'' = Inl IndexError"
proof -
  have c1: "xpath_compile (job_env None) ''//a['' = None"
    by (simp add: job_env_def)
  have c2: "xpath_compile (job_env None) ''//salary'' = Some (\<lambda>root p. False) \<and>
            (\<forall>p e. node_at job_root p = Some e \<longrightarrow> \<not> (\<lambda>root p. False) job_root p)"
    by (simp add: job_env_def)
  note t1 = locate_failures [OF job_load, of None "''//a[''"]
  note t2 = locate_failures [OF job_load, of None "''//salary''"]
  from t1 c1 have "locate_node (job_env None) job_root ''//a['' = Inl XPathEvalError \<and>
            split_xml_node (job_env None) job_xml ''//a['' = Inl XPathEvalError"
    by blast
  moreover from t2 c2 have "locate_node (job_env None) job_root ''//salary'' = Inl IndexError \<and>
            split_xml_node (job_env None) job_xml ''//salary'' = Inl IndexError"
    by blast
  ultimately show ?thesis using job_load c1 by blast
qed

text \<open>
  C6. When the expression selects at least one node of the tree, line 22 takes the first
  selected node in document order: no node before it in the document-order list of the
  tree's nodes is selected, and every other selected node comes after it in document
  order.
\<close>

theorem locate_first_match:
  assumes c: "xpath_compile env node_path = Some selects"
    and n: "node_at root p = Some e"
    and s: "selects root p"
  shows "\<exists>earlier m later.
           nodes root = earlier @ m # later \<and>
           locate_node env root node_path = Inr m \<and>
           selects root (fst m) \<and>
           (\<forall>q\<in>set earlier. \<not> selects root (fst q)) \<and>
           (\<forall>q e'. node_at root q = Some e' \<and> selects root q \<longrightarrow>
              q = fst m \<or> before_in_document (fst m) q)"
proof -
  let ?P = "\<lambda>(p, e). selects root p"
  have "(p, e) \<in> set (nodes root)" using n by (simp add: nodes_iff)
  with s have "\<exists>x\<in>set (nodes root). ?P x" by auto
  then obtain earlier m later where
    d: "nodes root = earlier @ m # later" "?P m" "\<forall>q\<in>set earlier. \<not> ?P q"
    by (auto simp: split_list_first_prop_iff)
  from d have "filter ?P (nodes root) = m # filter ?P later"
    by simp
  with c have l: "locate_node env root node_path = Inr m"
    by (simp add: locate_node_def xpath_def)
  have sm: "selects root (fst m)"
    using d(2) by (simp add: case_prod_beta)
  have se: "\<forall>q\<in>set earlier. \<not> selects root (fst q)"
    using d(3) by (simp add: case_prod_beta)
  have o: "\<forall>y\<in>set later. before_in_document (fst m) (fst y)"
    using nodes_document_order(1) [of root] unfolding d(1)
    by (simp add: sorted_wrt_append)
  have f: "q = fst m \<or> before_in_document (fst m) q"
    if "node_at root q = Some e' \<and> selects root q" for q e'
  proof -
    from that have "(q, e') \<in> set (nodes root)" by (simp add: nodes_iff)
    then have "(q, e') \<in> set earlier \<or> (q, e') = m \<or> (q, e') \<in> set later"
      unfolding d(1) by auto
    moreover have "(q, e') \<notin> set earlier" using se that by force
    ultimately show ?thesis using o by force
  qed
  from d(1) l sm se f show ?thesis by blast
qed

text \<open>
  In the second document the expression selects the nodes \<open>[0, 1]\<close>, \<open>[1]\<close> and \<open>[2, 0]\<close>. The
  theorem, used at the last of them, leaves only \<open>[0, 1]\<close> for the located node.
\<close>

lemma jobs_nodes:
  "map fst (nodes jobs_root) = [[], [0], [0, 0], [0, 1], [1], [2], [2, 0]]"
  by (simp add: jobs_root_def)

theorem locate_first_match_witness:
  "xpath_compile (job_env None) ''//description'' =
     Some (\<lambda>root p. case node_at root p of None \<Rightarrow> False | Some e \<Rightarrow> tag e = ''description'') \<and>
   node_at jobs_root [0, 1] = Some (Element ''description'' [] (Some ''A'') [] None) \<and>
   node_at jobs_root [1] = Some (Element ''description'' [] (Some ''B'') [] None) \<and>
   node_at jobs_root [2, 0] = Some (Element ''description'' [] (Some ''C'') [] None) \<and>
   locate_node (job_env None) jobs_root ''//description'' =
     Inr ([0, 1], Element ''description'' [] (Some ''A'') [] None) \<and>
   before_in_document [0, 1] [1] \<and> before_in_document [0, 1] [2, 0] \<and>
   (\<exists>earlier later.
      nodes jobs_root = earlier @ ([0, 1], Element ''description'' [] (Some ''A'') [] None) # later \<and>
      (\<forall>q\<in>set earlier.
         \<not> (case node_at jobs_root (fst q) of None \<Rightarrow> False | Some e \<Rightarrow> tag e = ''description'')) \<and>
      (\<forall>q e'. node_at jobs_root q = Some e' \<and>
           (case node_at jobs_root q of None \<Rightarrow> False | Some e \<Rightarrow> tag e = ''description'') \<longrightarrow>
         q = [0, 1] \<or> before_in_document [0, 1] q))"
proof -
  let ?sel = "\<lambda>root p. case node_at root p of None \<Rightarrow> False | Some e \<Rightarrow> tag e = ''description''"
  let ?A = "Element ''description'' [] (Some ''A'') [] None"
  have c: "xpath_compile (job_env None) ''//description'' = Some ?sel"
    by (simp add: job_env_def)
  have nA: "node_at jobs_root [0, 1] = Some ?A"
    and nB: "node_at jobs_root [1] = Some (Element ''description'' [] (Some ''B'') [] None)"
    and nC: "node_at jobs_root [2, 0] = Some (Element ''description'' [] (Some ''C'') [] None)"
    by (simp_all add: jobs_root_def)
  have sC: "?sel jobs_root [2, 0]"
    by (simp add: jobs_root_def)
  have sA: "?sel jobs_root [0, 1]"
    by (simp add: jobs_root_def)
  have b: "before_in_document [0, 1] [1]" "before_in_document [0, 1] [2, 0]"
    "\<not> before_in_document [1] [0, 1]" "\<not> before_in_document [2, 0] [0, 1]"
    by (simp_all add: before_in_document_def)
  from locate_first_match [OF c nC sC] obtain earlier m later where
    d: "nodes jobs_root = earlier @ m # later"
    and l: "locate_node (job_env None) jobs_root ''//description'' = Inr m"
    and sm: "?sel jobs_root (fst m)"
    and se: "\<forall>q\<in>set earlier. \<not> ?sel jobs_root (fst q)"
    and f: "\<forall>q e'. node_at jobs_root q = Some e' \<and> ?sel jobs_root q \<longrightarrow>
              q = fst m \<or> before_in_document (fst m) q"
    by blast
  from d have "fst m \<in> set (map fst (nodes jobs_root))" by simp
  then have "fst m \<in> {[], [0], [0, 0], [0, 1], [1], [2], [2, 0]}"
    unfolding jobs_nodes by simp
  with sm have "fst m \<in> {[0, 1], [1], [2, 0]}"
    by (auto simp: jobs_root_def)
  moreover from f nA sA have "[0, 1] = fst m \<or> before_in_document (fst m) [0, 1]"
    by blast
  ultimately have fm: "fst m = [0, 1]"
    using b by auto
  from d have "m \<in> set (nodes jobs_root)" by simp
  then have "node_at jobs_root (fst m) = Some (snd m)"
    using nodes_iff(1) [of "fst m" "snd m" jobs_root] by simp
  with fm nA have m: "m = ([0, 1], ?A)"
    by (cases m) simp
  from d l se f show ?thesis
    unfolding m using c nA nB nC b(1,2) by auto
qed

subsection \<open>Claims about the reply and the prompt\<close>

text \<open>
  C7. The reply is parsed as \<^verbatim>\<open><root>\<close> + reply + \<^verbatim>\<open></root>\<close> by the strict parser. When that
  text does not parse, the split raises \<^verbatim>\<open>Exception("CodeLlama returned invalid XML")\<close> and
  the tree is untouched. Otherwise the elements handed to the splice are the children
  of the parsed synthetic root, in the parser's order: the loop runs over exactly this
  list, and what it inserts is this list without its blank elements, order kept.
\<close>

theorem reply_parsed_strictly:
  assumes loc: "locate_node env root node_path = Inr (node, target)"
    and ask: "ask_codellama env (prompt (tag target) (original_content target)) = Some split_content"
  shows "(fromstring env (''<root>'' @ split_content @ ''</root>'') = None \<longrightarrow>
            parse_split_content env split_content = Inl (Exception ''CodeLlama returned invalid XML'') \<and>
            split_node env node_path root = (Inl (Exception ''CodeLlama returned invalid XML''), root)) \<and>
         (\<forall>split_root. fromstring env (''<root>'' @ split_content @ ''</root>'') = Some split_root \<longrightarrow>
            parse_split_content env split_content = Inr split_root \<and>
            split_node env node_path root = replace_node node (children split_root) root \<and>
            (\<forall>index cs. index \<le> length cs \<longrightarrow>
               insert_loop (children split_root) index cs =
                 take index cs @ filter has_text (children split_root) @ drop index cs))"
  using loc ask
  by (simp add: split_node_def parse_split_content_def insert_loop_eq)

theorem reply_parsed_strictly_witness:
  "locate_node (job_env (Some reply_text)) job_root ''//description'' =
     Inr ([1], Element ''description'' [] (Some ''Build. Pay.'') [] None) \<and>
   ask_codellama (job_env (Some reply_text)) (prompt ''description'' ''Build. Pay.'') = Some reply_text \<and>
   fromstring (job_env (Some reply_text)) (''<root>'' @ reply_text @ ''</root>'') = Some reply_root \<and>
   parse_split_content (job_env (Some reply_text)) reply_text = Inr reply_root \<and>
   split_node (job_env (Some reply_text)) ''//description'' job_root =
     replace_node [1] (children reply_root) job_root \<and>
   insert_loop (children reply_root) 1 [Element ''title'' [] (Some ''Dev'') [] None] =
     take 1 [Element ''title'' [] (Some ''Dev'') [] None] @ filter has_text (children reply_root)
     @ drop 1 [Element ''title'' [] (Some ''Dev'') [] None]"
proof -
  let ?env = "job_env (Some reply_text)"
  let ?d = "Element ''description'' [] (Some ''Build. Pay.'') [] None"
  have ask: "ask_codellama ?env (prompt (tag ?d) (original_content ?d)) = Some reply_text"
    by (rule job_ask)
  have a: "ask_codellama ?env (prompt ''description'' ''Build. Pay.'') = Some reply_text"
    by (rule job_ask)
  have l: "(1::nat) \<le> length [Element ''title'' [] (Some ''Dev'') [] None]" by simp
  note t = reply_parsed_strictly [OF job_locate_any ask, THEN conjunct2, rule_format, OF job_parse]
  from t have "parse_split_content ?env reply_text = Inr reply_root"
    and "split_node ?env ''//description'' job_root = replace_node [1] (children reply_root) job_root"
    and "insert_loop (children reply_root) 1 [Element ''title'' [] (Some ''Dev'') [] None] =
     take 1 [Element ''title'' [] (Some ''Dev'') [] None] @ filter has_text (children reply_root)
     @ drop 1 [Element ''title'' [] (Some ''Dev'') [] None]"
    using l by blast+
  then show ?thesis using job_locate_any a job_parse by blast
qed

text \<open>
  C9. Whatever the tag and the text of the node, the prompt opens with the task line,
  which counts four categories and names task, profile, offer and contact; the word
  "introduction" does not occur in that line. The prompt ends with the output format,
  whose five lines show the tags introduction, task, profile, offer and contact.
\<close>

theorem prompt_categories:
  "prefix (CHR 0x0A #
      ''    Task: Split the following XML content into four categories: task, profile, offer, and contact.''
      @ [CHR 0x0A]) (prompt node_tag text_content) \<and>
   \<not> contains ''introduction''
      ''    Task: Split the following XML content into four categories: task, profile, offer, and contact.'' \<and>
   suffix (join_lines
     [''    Output format:'',
      ''    <introduction>Introduction content here</introduction>'',
      ''    <task>Task content here</task>'',
      ''    <profile>Profile content here</profile>'',
      ''    <offer>Offer content here</offer>'',
      ''    <contact>Contact content here</contact>'',
      [],
      ''    Split the content:'',
      ''    '']) (prompt node_tag text_content)"
proof (intro conjI)
  show "prefix (CHR 0x0A #
      ''    Task: Split the following XML content into four categories: task, profile, offer, and contact.''
      @ [CHR 0x0A]) (prompt node_tag text_content)"
    by (simp add: prompt_def)
  show "\<not> contains ''introduction''
      ''    Task: Split the following XML content into four categories: task, profile, offer, and contact.''"
    by simp
  show "suffix (join_lines
     [''    Output format:'',
      ''    <introduction>Introduction content here</introduction>'',
      ''    <task>Task content here</task>'',
      ''    <profile>Profile content here</profile>'',
      ''    <offer>Offer content here</offer>'',
      ''    <contact>Contact content here</contact>'',
      [],
      ''    Split the content:'',
      ''    '']) (prompt node_tag text_content)"
    unfolding suffix_def prompt_def
    by (rule exI [of _ "join_lines
     [ [],
       ''    Task: Split the following XML content into four categories: task, profile, offer, and contact.'',
       ''    Rules:'',
       ''    1. Maintain the original wording.'',
       ''    2. Do not add any new information.'',
       ''    3. If a category is not applicable, omit that tag entirely.'',
       ''    4. Use proper XML syntax.'',
       [],
       ''    Input XML:'',
       ''    <'' @ node_tag @ ''>'',
       ''    '' @ text_content,
       ''    </'' @ node_tag @ ''>'',
       [],
       [] ]"]) simp
qed

subsection \<open>Claims about line 16\<close>






end
